theory Spec2Isabelle
  imports Main "HOL-Library.Sublist"
begin

section \<open>The HTML renderer of CommonMark-py (CommonMark/html.py)\<close>

text \<open>
  A shallow embedding of \<^verbatim>\<open>CommonMark/html.py\<close>. Python strings are \<open>string\<close>
  (lists of 8-bit characters); exceptions are values of \<open>error\<close>, returned as
  \<open>Inl\<close>; the attributes \<^verbatim>\<open>buf\<close>, \<^verbatim>\<open>last_out\<close> and \<^verbatim>\<open>disable_tags\<close> that
  \<^verbatim>\<open>renderNodes\<close> sets on the instance are the record \<open>render_state\<close>, passed
  through every handler; the attributes set by \<^verbatim>\<open>__init__\<close> are the record
  \<open>HtmlRenderer\<close>. The tree walker is external: a render call consumes the
  finite list of events that successive \<^verbatim>\<open>walker.nxt()\<close> calls return.
\<close>

subsection \<open>Python values and exceptions\<close>

text \<open>The exceptions the module can raise; the payload is the message of a
  \<^verbatim>\<open>ValueError\<close>, the missing attribute of an \<^verbatim>\<open>AttributeError\<close>, the missing
  key of a \<^verbatim>\<open>KeyError\<close> and the callee of a \<^verbatim>\<open>TypeError\<close>.\<close>

datatype error =
    ValueError string
  | AttributeError string
  | KeyError string
  | TypeError string

text \<open>The values stored in the option dictionary and in \<^verbatim>\<open>list_data\<close>.\<close>

datatype pyval = PyNone | PyBool bool | PyInt int | PyStr string

text \<open>Python truth value testing.\<close>

fun truthy :: "pyval \<Rightarrow> bool" where
  "truthy PyNone = False"
| "truthy (PyBool b) = b"
| "truthy (PyInt i) = (i \<noteq> 0)"
| "truthy (PyStr s) = (s \<noteq> [])"

text \<open>The truth value of \<^verbatim>\<open>d.get(k)\<close>: a missing key gives \<^verbatim>\<open>None\<close>.\<close>

definition dict_get_truthy :: "(string \<rightharpoonup> pyval) \<Rightarrow> string \<Rightarrow> bool" where
  "dict_get_truthy d k = (case d k of None \<Rightarrow> False | Some v \<Rightarrow> truthy v)"

text \<open>\<^verbatim>\<open>v == 1\<close>: Python's \<^verbatim>\<open>True\<close> equals \<^verbatim>\<open>1\<close>.\<close>

fun py_eq_one :: "pyval \<Rightarrow> bool" where
  "py_eq_one (PyInt i) = (i = 1)"
| "py_eq_one (PyBool b) = b"
| "py_eq_one _ = False"

definition digit_char :: "nat \<Rightarrow> char" where
  "digit_char d = ''0123456789'' ! d"

fun str_nat :: "nat \<Rightarrow> string" where
  "str_nat n = (if n < 10 then [digit_char n] else str_nat (n div 10) @ [digit_char (n mod 10)])"

declare str_nat.simps [simp del]

definition str_int :: "int \<Rightarrow> string" where
  "str_int i = (if i < 0 then ''-'' @ str_nat (nat (- i)) else str_nat (nat i))"

text \<open>\<^verbatim>\<open>str(v)\<close>.\<close>

fun py_str :: "pyval \<Rightarrow> string" where
  "py_str PyNone = ''None''"
| "py_str (PyBool b) = (if b then ''True'' else ''False'')"
| "py_str (PyInt i) = str_int i"
| "py_str (PyStr s) = s"

subsection \<open>The regular expressions\<close>

text \<open>\<^verbatim>\<open>re.IGNORECASE\<close> on 8-bit characters: only the ASCII letters have another
  case.\<close>

definition lower_char :: "char \<Rightarrow> char" where
  "lower_char c =
     (case map_of (zip ''ABCDEFGHIJKLMNOPQRSTUVWXYZ'' ''abcdefghijklmnopqrstuvwxyz'') c of
        None \<Rightarrow> c | Some d \<Rightarrow> d)"

text \<open>A literal matched without regard to case at the start of the subject
  (\<^verbatim>\<open>^lit\<close> under \<^verbatim>\<open>re.search\<close>, no \<^verbatim>\<open>re.MULTILINE\<close>).\<close>

fun starts_with_ci :: "string \<Rightarrow> string \<Rightarrow> bool" where
  "starts_with_ci [] s = True"
| "starts_with_ci (p # ps) [] = False"
| "starts_with_ci (p # ps) (c # cs) = (lower_char c = lower_char p \<and> starts_with_ci ps cs)"

text \<open>A literal matched without regard to case at any position
  (\<^verbatim>\<open>lit\<close> under \<^verbatim>\<open>re.search\<close>).\<close>

fun contains_ci :: "string \<Rightarrow> string \<Rightarrow> bool" where
  "contains_ci p [] = starts_with_ci p []"
| "contains_ci p (c # cs) = (starts_with_ci p (c # cs) \<or> contains_ci p cs)"

text \<open>\<^verbatim>\<open>re.search(reUnsafeProtocol, url)\<close> for
  \<^verbatim>\<open>reUnsafeProtocol = re.compile(r'^javascript:|vbscript:|file:|data:', re.IGNORECASE)\<close>.
  Alternation binds weaker than concatenation, so \<^verbatim>\<open>^\<close> belongs to the first
  alternative only: the other three alternatives match at any position.\<close>

definition reUnsafeProtocol_search :: "string \<Rightarrow> bool" where
  "reUnsafeProtocol_search url =
     (starts_with_ci ''javascript:'' url \<or> contains_ci ''vbscript:'' url
      \<or> contains_ci ''file:'' url \<or> contains_ci ''data:'' url)"

text \<open>\<^verbatim>\<open>re.search(reSafeDataProtocol, url)\<close> for
  \<^verbatim>\<open>reSafeDataProtocol = re.compile(r'^data:image\/(?:png|gif|jpeg|webp)', re.IGNORECASE)\<close>.\<close>

definition reSafeDataProtocol_search :: "string \<Rightarrow> bool" where
  "reSafeDataProtocol_search url =
     (starts_with_ci ''data:image/png'' url \<or> starts_with_ci ''data:image/gif'' url
      \<or> starts_with_ci ''data:image/jpeg'' url \<or> starts_with_ci ''data:image/webp'' url)"

text \<open>The subject after the first \<^verbatim>\<open>>\<close>, if there is one.\<close>

fun after_gt :: "string \<Rightarrow> string option" where
  "after_gt [] = None"
| "after_gt (c # cs) = (if c = CHR ''>'' then Some cs else after_gt cs)"

lemma after_gt_length: "after_gt cs = Some r \<Longrightarrow> length r < length cs"
  by (induction cs) (auto split: if_splits)

text \<open>\<^verbatim>\<open>re.sub(reHtmlTag, '', s)\<close>, where \<^verbatim>\<open>reHtmlTag\<close> is a (needlessly escaped)
  \<^verbatim>\<open><\<close>, then \<^verbatim>\<open>[^>]*\<close>, then a \<^verbatim>\<open>>\<close>:
  scanning from the left, a \<^verbatim>\<open><\<close> that has a \<^verbatim>\<open>>\<close> somewhere after it starts a
  match that ends at the first such \<^verbatim>\<open>>\<close> and is deleted; every other character
  is kept.\<close>

function reHtmlTag_sub :: "string \<Rightarrow> string" where
  "reHtmlTag_sub [] = []"
| "reHtmlTag_sub (c # cs) =
     (if c = CHR ''<''
      then (case after_gt cs of
              Some r \<Rightarrow> reHtmlTag_sub r
            | None \<Rightarrow> c # reHtmlTag_sub cs)
      else c # reHtmlTag_sub cs)"
  by pat_completeness auto
termination
  by (relation "measure length") (auto dest: after_gt_length)

text \<open>\<^verbatim>\<open>re.search(reHtmlTag, s) is not None\<close>: some \<^verbatim>\<open><\<close> is followed, at any
  distance, by a \<^verbatim>\<open>>\<close>.\<close>

fun reHtmlTag_search :: "string \<Rightarrow> bool" where
  "reHtmlTag_search [] = False"
| "reHtmlTag_search (c # cs) = ((c = CHR ''<'' \<and> CHR ''>'' \<in> set cs) \<or> reHtmlTag_search cs)"

text \<open>Python 3 \<^verbatim>\<open>\s\<close> on the characters below 256.\<close>

definition is_space :: "char \<Rightarrow> bool" where
  "is_space c = (c \<in> set [CHR 0x09, CHR 0x0A, CHR 0x0B, CHR 0x0C, CHR 0x0D,
                           CHR 0x1C, CHR 0x1D, CHR 0x1E, CHR 0x1F, CHR 0x20,
                           CHR 0x85, CHR 0xA0])"

lemma dropWhile_space_shorter:
  "dropWhile (\<lambda>c. \<not> is_space c) s \<noteq> [] \<Longrightarrow>
   length (dropWhile is_space (dropWhile (\<lambda>c. \<not> is_space c) s)) < length s"
proof -
  assume ne: "dropWhile (\<lambda>c. \<not> is_space c) s \<noteq> []"
  define r where "r = dropWhile (\<lambda>c. \<not> is_space c) s"
  from ne have "is_space (hd r)"
    unfolding r_def using hd_dropWhile [of "\<lambda>c. \<not> is_space c" s] by simp
  moreover from ne have "r \<noteq> []" by (simp add: r_def)
  ultimately have "length (dropWhile is_space r) < length r"
    by (cases r) (auto simp: le_imp_less_Suc length_dropWhile_le)
  moreover have "length r \<le> length s"
    by (simp add: r_def length_dropWhile_le)
  ultimately show ?thesis by (simp add: r_def)
qed

text \<open>\<^verbatim>\<open>re.split(r'\s+', s)\<close>: the pieces between the maximal runs of white
  space, with an empty piece before a leading and after a trailing run.\<close>

function re_split_ws :: "string \<Rightarrow> string list" where
  "re_split_ws s =
     (let w = takeWhile (\<lambda>c. \<not> is_space c) s;
          r = dropWhile (\<lambda>c. \<not> is_space c) s
      in if r = [] then [w] else w # re_split_ws (dropWhile is_space r))"
  by pat_completeness auto
termination
  by (relation "measure length")
     (simp_all add: dropWhile_space_shorter del: dropWhile_eq_Nil_conv)

declare re_split_ws.simps [simp del]

subsection \<open>Module-level functions\<close>

type_synonym attrs = "(string \<times> string) list"

text \<open>\<^verbatim>\<open>tag(name, attrs=[], selfclosing=False)\<close>.\<close>

definition tag :: "string \<Rightarrow> attrs \<Rightarrow> bool \<Rightarrow> string" where
  "tag name attrs selfclosing =
     (let result = foldl (\<lambda>result attr. result @ '' '' @ fst attr @ ''=\"'' @ snd attr @ ''\"'')
                         (''<'' @ name) attrs;
          result = (if selfclosing then result @ '' /'' else result)
      in result @ ''>'')"

text \<open>\<^verbatim>\<open>potentially_unsafe(url)\<close>, read for its truth value.\<close>

definition potentially_unsafe :: "string \<Rightarrow> bool" where
  "potentially_unsafe url = (reUnsafeProtocol_search url \<and> \<not> reSafeDataProtocol_search url)"

subsection \<open>Nodes, events and the renderer\<close>

text \<open>
  The attributes of a \<^verbatim>\<open>Node\<close> that the renderer reads. The text attributes
  \<^verbatim>\<open>title\<close>, \<^verbatim>\<open>info\<close>, \<^verbatim>\<open>on_enter\<close> and \<^verbatim>\<open>on_exit\<close> are only used after a truth
  test, which \<^verbatim>\<open>None\<close> and the empty string both fail: the empty string stands
  for both. \<^verbatim>\<open>literal\<close> and \<^verbatim>\<open>destination\<close> are strings. \<^verbatim>\<open>sourcepos\<close> is
  \<^verbatim>\<open>None\<close> or a pair of (line, column) pairs. \<^verbatim>\<open>parent\<close> is \<^verbatim>\<open>None\<close> or a node.
\<close>

datatype node = Node
  (t: string)
  (literal: string)
  (destination: string)
  (title: string)
  (info: string)
  (level: int)
  (on_enter: string)
  (on_exit: string)
  (list_data: "string \<rightharpoonup> pyval")
  (sourcepos: "((int \<times> int) \<times> (int \<times> int)) option")
  (parent: "node option")

text \<open>An event of the walker: \<^verbatim>\<open>{'entering': ..., 'node': ...}\<close>.\<close>

record event =
  entering :: bool
  node :: node

text \<open>What \<^verbatim>\<open>__init__\<close> stores on the instance.\<close>

record HtmlRenderer =
  softbreak :: string
  options :: "string \<rightharpoonup> pyval"

text \<open>What \<^verbatim>\<open>renderNodes\<close> stores on the instance for one render call.\<close>

record render_state =
  buf :: string
  last_out :: string
  disable_tags :: int

text \<open>\<^verbatim>\<open>__init__(self, options={})\<close>: two assignments, no check of the options.\<close>

definition HtmlRenderer_init :: "(string \<rightharpoonup> pyval) \<Rightarrow> error + HtmlRenderer" where
  "HtmlRenderer_init opts = Inr \<lparr>softbreak = ''\<newline>'', options = opts\<rparr>"

text \<open>\<^verbatim>\<open>out(self, s)\<close>.\<close>

definition out :: "string \<Rightarrow> render_state \<Rightarrow> render_state" where
  "out s st =
     (let st1 = (if disable_tags st > 0
                 then st\<lparr>buf := buf st @ reHtmlTag_sub s\<rparr>
                 else st\<lparr>buf := buf st @ s\<rparr>)
      in st1\<lparr>last_out := s\<rparr>)"

text \<open>\<^verbatim>\<open>cr(self)\<close>.\<close>

definition cr :: "render_state \<Rightarrow> render_state" where
  "cr st =
     (if last_out st \<noteq> ''\<newline>''
      then st\<lparr>buf := buf st @ ''\<newline>'', last_out := ''\<newline>''\<rparr>
      else st)"

subsection \<open>The rendering methods\<close>

text \<open>
  Every method takes \<^verbatim>\<open>(self, event, node, attrs, entering)\<close> and the state, and
  returns the new state or the exception it raises. \<^verbatim>\<open>escape_xml\<close> is imported
  from \<^verbatim>\<open>CommonMark.common\<close>, which is not part of the sources: it is the
  parameter \<open>esc\<close> of every method.
\<close>

type_synonym escape = "string \<Rightarrow> bool \<Rightarrow> string"

type_synonym handler =
  "escape \<Rightarrow> HtmlRenderer \<Rightarrow> event \<Rightarrow> node \<Rightarrow> attrs \<Rightarrow> bool \<Rightarrow> render_state
   \<Rightarrow> error + render_state"

definition renderText :: handler where
  "renderText esc self ev n attrs ent st = Inr (out (esc (literal n) False) st)"

definition renderSoftbreak :: handler where
  "renderSoftbreak esc self ev n attrs ent st = Inr (out (softbreak self) st)"

definition renderHardbreak :: handler where
  "renderHardbreak esc self ev n attrs ent st = Inr (cr (out (tag ''br'' [] True) st))"

definition renderEmph :: handler where
  "renderEmph esc self ev n attrs ent st =
     Inr (out (tag (if ent then ''em'' else ''/em'') [] False) st)"

definition renderStrong :: handler where
  "renderStrong esc self ev n attrs ent st =
     Inr (out (tag (if ent then ''strong'' else ''/strong'') [] False) st)"

definition renderHtmlInline :: handler where
  "renderHtmlInline esc self ev n attrs ent st =
     (if dict_get_truthy (options self) ''safe''
      then Inr (out ''<!-- raw HTML omitted -->'' st)
      else Inr (out (literal n) st))"

definition renderCustomInline :: handler where
  "renderCustomInline esc self ev n attrs ent st =
     (if ent \<and> on_enter n \<noteq> [] then Inr (out (on_enter n) st)
      else if \<not> ent \<and> on_exit n \<noteq> [] then Inr (out (on_exit n) st)
      else Inr st)"

definition renderLink :: handler where
  "renderLink esc self ev n attrs ent st =
     (if ent then
        (let attrs1 = (if \<not> (dict_get_truthy (options self) ''safe''
                               \<and> potentially_unsafe (destination n))
                       then attrs @ [(''href'', esc (destination n) True)]
                       else attrs);
             attrs2 = (if title n \<noteq> []
                       then attrs1 @ [(''title'', esc (title n) True)]
                       else attrs1)
         in Inr (out (tag ''a'' attrs2 False) st))
      else Inr (out (tag ''/a'' [] False) st))"

definition renderImage :: handler where
  "renderImage esc self ev n attrs ent st =
     (if ent then
        (let st1 = (if disable_tags st = 0
                    then (if dict_get_truthy (options self) ''safe''
                             \<and> potentially_unsafe (destination n)
                          then out ''<img src=\"\" alt=\"'' st
                          else out (''<img src=\"'' @ esc (destination n) True @ ''\" alt=\"'') st)
                    else st)
         in Inr (st1\<lparr>disable_tags := disable_tags st1 + 1\<rparr>))
      else
        (let st1 = st\<lparr>disable_tags := disable_tags st - 1\<rparr>
         in if disable_tags st1 = 0
            then (let st2 = (if title n \<noteq> []
                             then out (''\" title=\"'' @ esc (title n) True) st1
                             else st1)
                  in Inr (out ''\" />'' st2))
            else Inr st1))"

definition renderCode :: handler where
  "renderCode esc self ev n attrs ent st =
     Inr (out (tag ''code'' [] False @ esc (literal n) False @ tag ''/code'' [] False) st)"

definition renderDocument :: handler where
  "renderDocument esc self ev n attrs ent st = Inr st"

text \<open>\<^verbatim>\<open>node.parent.parent\<close> raises \<^verbatim>\<open>AttributeError\<close> when \<^verbatim>\<open>node.parent\<close> is
  \<^verbatim>\<open>None\<close>.\<close>

definition renderParagraph :: handler where
  "renderParagraph esc self ev n attrs ent st =
     (case parent n of
        None \<Rightarrow> Inl (AttributeError ''parent'')
      | Some p \<Rightarrow>
          (let grandparent = parent p
           in if (case grandparent of
                    None \<Rightarrow> False
                  | Some g \<Rightarrow> t g = ''List'' \<and> dict_get_truthy (list_data g) ''tight'')
              then Inr st
              else if ent then Inr (out (tag ''p'' attrs False) (cr st))
              else Inr (cr (out (tag ''/p'' [] False) st))))"

definition renderBlockQuote :: handler where
  "renderBlockQuote esc self ev n attrs ent st =
     (if ent then Inr (cr (out (tag ''blockquote'' attrs False) (cr st)))
      else Inr (cr (out (tag ''/blockquote'' [] False) (cr st))))"

definition renderItem :: handler where
  "renderItem esc self ev n attrs ent st =
     (if ent then Inr (out (tag ''li'' attrs False) st)
      else Inr (cr (out (tag ''/li'' [] False) st)))"

text \<open>\<^verbatim>\<open>node.list_data['type']\<close> raises \<^verbatim>\<open>KeyError\<close> on a missing key; a missing
  \<^verbatim>\<open>'start'\<close> is caught and read as \<^verbatim>\<open>None\<close>.\<close>

definition renderList :: handler where
  "renderList esc self ev n attrs ent st =
     (case list_data n ''type'' of
        None \<Rightarrow> Inl (KeyError ''type'')
      | Some ty \<Rightarrow>
          (let tagname = (if ty = PyStr ''Bullet'' then ''ul'' else ''ol'')
           in if ent then
                (let start = (case list_data n ''start'' of None \<Rightarrow> PyNone | Some v \<Rightarrow> v);
                     attrs1 = (if start \<noteq> PyNone \<and> \<not> py_eq_one start
                               then attrs @ [(''start'', py_str start)]
                               else attrs)
                 in Inr (cr (out (tag tagname attrs1 False) (cr st))))
              else Inr (cr (out (tag (''/'' @ tagname) [] False) (cr st)))))"

definition renderHeading :: handler where
  "renderHeading esc self ev n attrs ent st =
     (let tagname = ''h'' @ str_int (level n)
      in if ent then Inr (out (tag tagname attrs False) (cr st))
         else Inr (cr (out (tag (''/'' @ tagname) [] False) st)))"

definition renderCodeBlock :: handler where
  "renderCodeBlock esc self ev n attrs ent st =
     (let info_words = (if info n \<noteq> [] then re_split_ws (info n) else []);
          attrs1 = (case info_words of
                      [] \<Rightarrow> attrs
                    | w # ws \<Rightarrow>
                        if length w > 0
                        then attrs @ [(''class'', ''language-'' @ esc w True)]
                        else attrs);
          st1 = cr st;
          st2 = out (tag ''pre'' [] False @ tag ''code'' attrs1 False) st1;
          st3 = out (esc (literal n) False) st2;
          st4 = out (tag ''/code'' [] False @ tag ''/pre'' [] False) st3
      in Inr (cr st4))"

definition renderHtmlBlock :: handler where
  "renderHtmlBlock esc self ev n attrs ent st =
     (let st1 = (if dict_get_truthy (options self) ''safe''
                 then out ''<!-- raw HTML omitted -->'' st
                 else out (literal n) st)
      in Inr (cr st1))"

definition renderCustomBlock :: handler where
  "renderCustomBlock esc self ev n attrs ent st =
     (let st1 = cr st;
          st2 = (if ent \<and> on_enter n \<noteq> [] then out (on_enter n) st1
                 else if \<not> ent \<and> on_exit n \<noteq> [] then out (on_exit n) st1
                 else st1)
      in Inr (cr st2))"

definition renderThematicBreak :: handler where
  "renderThematicBreak esc self ev n attrs ent st =
     Inr (cr (out (tag ''hr'' attrs True) (cr st)))"

text \<open>\<^verbatim>\<open>renderNodes\<close> (and its alias \<^verbatim>\<open>render\<close>) called as a rendering method:
  it takes one argument beside \<^verbatim>\<open>self\<close> and is given four.\<close>

definition renderNodes_as_method :: handler where
  "renderNodes_as_method esc self ev n attrs ent st = Inl (TypeError ''renderNodes'')"

subsection \<open>Dispatch and the traversal loop\<close>

text \<open>\<^verbatim>\<open>getattr(self, 'render' + node.t)\<close>: the attributes of the instance whose
  names start with \<^verbatim>\<open>render\<close>; \<open>None\<close> when \<^verbatim>\<open>getattr\<close> raises
  \<^verbatim>\<open>AttributeError\<close>.\<close>

definition lookup_render :: "string \<Rightarrow> handler option" where
  "lookup_render name =
     map_of
       [(''Text'', renderText), (''Softbreak'', renderSoftbreak),
        (''Hardbreak'', renderHardbreak), (''Emph'', renderEmph),
        (''Strong'', renderStrong), (''HtmlInline'', renderHtmlInline),
        (''CustomInline'', renderCustomInline), (''Link'', renderLink),
        (''Image'', renderImage), (''Code'', renderCode),
        (''Document'', renderDocument), (''Paragraph'', renderParagraph),
        (''BlockQuote'', renderBlockQuote), (''Item'', renderItem),
        (''List'', renderList), (''Heading'', renderHeading),
        (''CodeBlock'', renderCodeBlock), (''HtmlBlock'', renderHtmlBlock),
        (''CustomBlock'', renderCustomBlock), (''ThematicBreak'', renderThematicBreak),
        (''Nodes'', renderNodes_as_method), ([], renderNodes_as_method)]
       name"

text \<open>Lines 64 to 71 of the loop body: the attribute list of the event.
  \<^verbatim>\<open>attrs.push\<close> is looked up before its argument is evaluated, and a Python
  list has no attribute \<^verbatim>\<open>push\<close>.\<close>

definition sourcepos_attrs :: "HtmlRenderer \<Rightarrow> node \<Rightarrow> error + attrs" where
  "sourcepos_attrs self n =
     (let attrs = []
      in if dict_get_truthy (options self) ''sourcepos''
         then (case sourcepos n of
                 None \<Rightarrow> Inr attrs
               | Some pos \<Rightarrow> Inl (AttributeError ''push''))
         else Inr attrs)"

text \<open>Lines 73 to 77: the method is looked up by name and called.\<close>

definition dispatch :: handler where
  "dispatch esc self ev n attrs ent st =
     (case lookup_render (t n) of
        None \<Rightarrow> Inl (ValueError (''Unknown node type '' @ t n))
      | Some render_fn \<Rightarrow> render_fn esc self ev n attrs ent st)"

text \<open>One iteration of the \<^verbatim>\<open>while\<close> loop.\<close>

definition render_event ::
  "escape \<Rightarrow> HtmlRenderer \<Rightarrow> event \<Rightarrow> render_state \<Rightarrow> error + render_state" where
  "render_event esc self ev st =
     (let ent = entering ev; n = node ev
      in case sourcepos_attrs self n of
           Inl e \<Rightarrow> Inl e
         | Inr attrs \<Rightarrow> dispatch esc self ev n attrs ent st)"

text \<open>The loop over the events. The result is the state of the instance when
  the loop ends, and the exception if one ended it: every \<^verbatim>\<open>raise\<close> above
  happens before the first assignment of its iteration, so the state then is
  the state before the event.\<close>

fun run_events ::
  "escape \<Rightarrow> HtmlRenderer \<Rightarrow> event list \<Rightarrow> render_state \<Rightarrow> render_state \<times> error option" where
  "run_events esc self [] st = (st, None)"
| "run_events esc self (ev # evs) st =
     (case render_event esc self ev st of
        Inl e \<Rightarrow> (st, Some e)
      | Inr st' \<Rightarrow> run_events esc self evs st')"

text \<open>The state that \<^verbatim>\<open>renderNodes\<close> sets up before the loop.\<close>

definition initial_state :: render_state where
  "initial_state = \<lparr>buf = [], last_out = ''\<newline>'', disable_tags = 0\<rparr>"

text \<open>\<^verbatim>\<open>renderNodes(self, block)\<close>, on the events of \<^verbatim>\<open>block.walker()\<close>.\<close>

definition renderNodes :: "escape \<Rightarrow> HtmlRenderer \<Rightarrow> event list \<Rightarrow> error + string" where
  "renderNodes esc self evs =
     (case run_events esc self evs initial_state of
        (st, None) \<Rightarrow> Inr (buf st)
      | (st, Some e) \<Rightarrow> Inl e)"

subsection \<open>The escaping primitive and the safety filter of the specification\<close>

text \<open>Modelled from the spec: \<^verbatim>\<open>escape_xml\<close> of \<^verbatim>\<open>CommonMark.common\<close>, which is
  not part of the sources. The specification describes it as the pure function
  mapping \<^verbatim>\<open>&\<close>, \<^verbatim>\<open><\<close>, \<^verbatim>\<open>>\<close> and the double quote to entities, the quote
  being left alone in text content. No theorem below depends on it: they hold
  for every \<open>esc\<close>; it only provides a concrete escaping function where one is
  needed to run the renderer.\<close>

fun escape_xml :: escape where
  "escape_xml [] q = []"
| "escape_xml (c # cs) q =
     (if c = CHR ''&'' then ''&amp;''
      else if c = CHR ''<'' then ''&lt;''
      else if c = CHR ''>'' then ''&gt;''
      else if c = CHR 0x22 \<and> q then ''&quot;''
      else [c]) @ escape_xml cs q"

text \<open>The safety filter as the specification words it: a leading
  \<^verbatim>\<open>javascript:\<close>, \<^verbatim>\<open>vbscript:\<close>, \<^verbatim>\<open>file:\<close> or \<^verbatim>\<open>data:\<close>, and no leading
  \<^verbatim>\<open>data:image/png\<close>, \<^verbatim>\<open>gif\<close>, \<^verbatim>\<open>jpeg\<close> or \<^verbatim>\<open>webp\<close>, all without regard to
  case.\<close>

definition is_unsafe_spec :: "string \<Rightarrow> bool" where
  "is_unsafe_spec u =
     ((starts_with_ci ''javascript:'' u \<or> starts_with_ci ''vbscript:'' u
       \<or> starts_with_ci ''file:'' u \<or> starts_with_ci ''data:'' u)
      \<and> \<not> (starts_with_ci ''data:image/png'' u \<or> starts_with_ci ''data:image/gif'' u
           \<or> starts_with_ci ''data:image/jpeg'' u \<or> starts_with_ci ''data:image/webp'' u))"

subsection \<open>Events and traces\<close>

text \<open>The number of events entering, and of events leaving, an Image node.\<close>

definition image_enters :: "event list \<Rightarrow> nat" where
  "image_enters evs = length (filter (\<lambda>ev. t (node ev) = ''Image'' \<and> entering ev) evs)"

definition image_exits :: "event list \<Rightarrow> nat" where
  "image_exits evs = length (filter (\<lambda>ev. t (node ev) = ''Image'' \<and> \<not> entering ev) evs)"


text \<open>The condition under which \<open>renderParagraph\<close> writes nothing: the
  grandparent of the node exists, is a List node and has a true \<^verbatim>\<open>tight\<close>
  entry in its \<^verbatim>\<open>list_data\<close>.\<close>

definition tight_list_grandparent :: "node \<Rightarrow> bool" where
  "tight_list_grandparent n =
     (case parent n of
        None \<Rightarrow> False
      | Some p \<Rightarrow>
          (case parent p of
             None \<Rightarrow> False
           | Some g \<Rightarrow> t g = ''List'' \<and> dict_get_truthy (list_data g) ''tight''))"

subsection \<open>Example nodes\<close>

text \<open>A tight bullet list with one item holding one paragraph, an image with
  a text in its alternative text, a link to a script, a link to a picture, and a paragraph
  directly under the document.\<close>

definition example_list :: node where
  "example_list =
     Node ''List'' [] [] [] [] 0 [] []
       [''type'' \<mapsto> PyStr ''Bullet'', ''tight'' \<mapsto> PyBool True] None None"

definition example_item :: node where
  "example_item = Node ''Item'' [] [] [] [] 0 [] [] Map.empty None (Some example_list)"

definition example_paragraph :: node where
  "example_paragraph = Node ''Paragraph'' [] [] [] [] 0 [] [] Map.empty None (Some example_item)"

definition example_image :: node where
  "example_image = Node ''Image'' [] ''pic.png'' [] [] 0 [] [] Map.empty None None"

definition example_text :: node where
  "example_text = Node ''Text'' ''x'' [] [] [] 0 [] [] Map.empty None (Some example_image)"

definition example_link :: node where
  "example_link = Node ''Link'' [] ''javascript:alert(1)'' [] [] 0 [] [] Map.empty None None"

definition example_safe_link :: node where
  "example_safe_link = Node ''Link'' [] ''pic.png'' [] [] 0 [] [] Map.empty None None"

definition example_one :: node where
  "example_one = Node ''Text'' ''one'' [] [] [] 0 [] [] Map.empty None (Some example_paragraph)"

definition example_document :: node where
  "example_document = Node ''Document'' [] [] [] [] 0 [] [] Map.empty None None"

definition example_loose_paragraph :: node where
  "example_loose_paragraph =
     Node ''Paragraph'' [] [] [] [] 0 [] [] Map.empty None (Some example_document)"

definition example_renderer :: HtmlRenderer where
  "example_renderer = \<lparr>softbreak = ''\<newline>'', options = [''safe'' \<mapsto> PyBool True]\<rparr>"

section \<open>Properties\<close>

subsection \<open>The output buffer\<close>

lemma disable_tags_out [simp]: "disable_tags (out s st) = disable_tags st"
  by (simp add: out_def Let_def)

lemma disable_tags_cr [simp]: "disable_tags (cr st) = disable_tags st"
  by (simp add: cr_def)

lemma last_out_out [simp]: "last_out (out s st) = s"
  by (simp add: out_def Let_def)

lemma last_out_cr [simp]: "last_out (cr st) = ''\<newline>''"
  by (simp add: cr_def)


lemma buf_cr: "buf (cr st) = buf st @ (if last_out st = ''\<newline>'' then [] else ''\<newline>'')"
  by (simp add: cr_def)

lemma out_state:
  "out s st = st\<lparr>buf := buf st @ (if 0 < disable_tags st then reHtmlTag_sub s else s),
                 last_out := s\<rparr>"
  by (simp add: out_def Let_def)

lemma cr_state:
  "cr st = st\<lparr>buf := buf st @ (if last_out st = ''\<newline>'' then [] else ''\<newline>''),
               last_out := ''\<newline>''\<rparr>"
  by (simp add: cr_def)

lemma after_gt_None: "after_gt cs = None \<longleftrightarrow> CHR ''>'' \<notin> set cs"
  by (induction cs) auto




lemma after_gt_first:
  "CHR ''>'' \<notin> set m \<Longrightarrow> after_gt (m @ CHR ''>'' # post) = Some post"
  by (induction m) auto

text \<open>The substitution deletes the leftmost match: text without \<^verbatim>\<open><\<close> is kept,
  the first \<^verbatim>\<open><\<close> goes with everything up to the first \<^verbatim>\<open>>\<close> after it, and the
  scan goes on behind that.\<close>

lemma reHtmlTag_sub_leftmost:
  "CHR ''<'' \<notin> set pre \<Longrightarrow> CHR ''>'' \<notin> set m \<Longrightarrow>
   reHtmlTag_sub (pre @ CHR ''<'' # m @ CHR ''>'' # post) = pre @ reHtmlTag_sub post"
  by (induction pre) (auto simp: after_gt_first)

lemma reHtmlTag_sub_no_match: "\<not> reHtmlTag_search s \<Longrightarrow> reHtmlTag_sub s = s"
  by (induction s) (auto simp: after_gt_None [symmetric])

subsection \<open>The safety filter\<close>

lemma starts_contains_ci: "starts_with_ci p u \<Longrightarrow> contains_ci p u"
  by (cases u) auto

lemma is_unsafe_spec_potentially_unsafe: "is_unsafe_spec u \<Longrightarrow> potentially_unsafe u"
  by (auto simp: is_unsafe_spec_def potentially_unsafe_def reUnsafeProtocol_search_def
        reSafeDataProtocol_search_def dest: starts_contains_ci)

text \<open>
  Claim C1. The claim: a URL is classified unsafe if and only if it begins with
  one of the four schemes and does not begin with an allowed image data prefix,
  so that a scheme in a non-leading position does not count. The code anchors
  the first alternative only: the URL \<^verbatim>\<open>http://a.b/file:x\<close>, which begins with
  none of the schemes, is classified unsafe by \<open>potentially_unsafe\<close> and is not
  unsafe in the sense of the specification.
\<close>

theorem potentially_unsafe_nonleading_scheme:
  "potentially_unsafe ''http://a.b/file:x'' \<and> \<not> is_unsafe_spec ''http://a.b/file:x''"
  by code_simp

subsection \<open>Newline coalescing\<close>

text \<open>
  Claim C2, as stated, fails: after emitting the text \<^verbatim>\<open>a\n\<close>, whose last
  character is a newline, \<open>cr\<close> appends a second newline.
\<close>

theorem cr_after_text_ending_in_newline:
  "last ''a\<newline>'' = CHR ''\<newline>''
   \<and> buf (out ''a\<newline>'' initial_state) = ''a\<newline>''
   \<and> buf (cr (out ''a\<newline>'' initial_state)) = ''a\<newline>\<newline>''"
  by (simp add: cr_def out_def initial_state_def)

text \<open>
  Claim C2, amended. \<open>cr\<close> appends exactly one newline to the buffer when the
  string most recently passed to \<open>out\<close> (or the newline recorded at the start
  of a render call or by an earlier \<open>cr\<close>) is not exactly the one-character
  string made of a newline, and does nothing when it is; consequently, after
  emitting exactly that one-character string, \<open>cr\<close> leaves the buffer
  unchanged.
\<close>

theorem cr_compares_last_string:
  "(last_out st \<noteq> ''\<newline>'' \<longrightarrow>
      buf (cr st) = buf st @ ''\<newline>'' \<and> last_out (cr st) = ''\<newline>'')
   \<and> (last_out st = ''\<newline>'' \<longrightarrow> cr st = st)
   \<and> last_out (out s st) = s
   \<and> last_out initial_state = ''\<newline>''
   \<and> cr (out ''\<newline>'' st) = out ''\<newline>'' st"
  by (simp add: cr_def out_def Let_def initial_state_def)

theorem cr_compares_last_string_witness:
  "last_out (out ''a'' initial_state) \<noteq> ''\<newline>''
   \<and> buf (cr (out ''a'' initial_state)) = ''a\<newline>''
   \<and> last_out initial_state = ''\<newline>''
   \<and> cr initial_state = initial_state"
  using cr_compares_last_string [of "out ''a'' initial_state" "''a''"]
        cr_compares_last_string [of initial_state "''a''"]
  by (simp add: out_def initial_state_def)

subsection \<open>Source positions\<close>

lemma sourcepos_attrs_raises:
  "dict_get_truthy (options self) ''sourcepos'' \<Longrightarrow> sourcepos n = Some pos \<Longrightarrow>
   sourcepos_attrs self n = Inl (AttributeError ''push'')"
  by (simp add: sourcepos_attrs_def)

lemma sourcepos_attrs_Inr: "sourcepos_attrs self n = Inr attrs \<Longrightarrow> attrs = []"
  by (auto simp: sourcepos_attrs_def split: if_splits option.splits)

lemma render_event_sourcepos_raises:
  "dict_get_truthy (options self) ''sourcepos'' \<Longrightarrow> sourcepos (node ev) = Some pos \<Longrightarrow>
   render_event esc self ev st = Inl (AttributeError ''push'')"
  by (simp add: render_event_def Let_def sourcepos_attrs_raises)

text \<open>
  Claim C6. The claim: with the source position option enabled, a node that
  carries a position span gets a \<^verbatim>\<open>data-sourcepos\<close> attribute on its opening tag
  and the render call completes without an error. The code calls \<^verbatim>\<open>attrs.push\<close>
  on a Python list: rendering a Document node with the span (1,1)-(1,5) under
  the option \<^verbatim>\<open>{'sourcepos': True}\<close> raises \<^verbatim>\<open>AttributeError\<close> and returns
  nothing.
\<close>

theorem renderNodes_sourcepos_raises:
  "renderNodes esc \<lparr>softbreak = ''\<newline>'', options = [''sourcepos'' \<mapsto> PyBool True]\<rparr>
     [\<lparr>entering = True,
       node = Node ''Document'' [] [] [] [] 0 [] [] Map.empty (Some ((1, 1), (1, 5))) None\<rparr>]
   = Inl (AttributeError ''push'')"
  by (simp add: renderNodes_def render_event_sourcepos_raises dict_get_truthy_def)

subsection \<open>Code blocks\<close>

lemma hd_re_split_ws: "\<exists>ws. re_split_ws s = takeWhile (\<lambda>c. \<not> is_space c) s # ws"
  by (subst re_split_ws.simps) (simp add: Let_def)

lemma tag_no_attrs: "tag name [] False = ''<'' @ name @ ''>''"
  by (simp add: tag_def)

lemma tag_one_attr: "tag name [(k, v)] False = ''<'' @ name @ '' '' @ k @ ''=\"'' @ v @ ''\">''"
  by (simp add: tag_def)

lemma tag_two_attrs:
  "tag name [(k, v), (k', v')] False
   = ''<'' @ name @ '' '' @ k @ ''=\"'' @ v @ ''\" '' @ k' @ ''=\"'' @ v' @ ''\">''"
  by (simp add: tag_def)

lemma renderCodeBlock_first_word:
  assumes "takeWhile (\<lambda>c. \<not> is_space c) (info n) = w" and "w \<noteq> []"
    and "\<not> 0 < disable_tags st"
  shows "renderCodeBlock esc self ev n [] ent st =
           Inr (st\<lparr>buf := buf (cr st) @ ''<pre><code class=\"language-'' @ esc w True @ ''\">''
                            @ esc (literal n) False @ ''</code></pre>\<newline>'',
                    last_out := ''\<newline>''\<rparr>)"
proof -
  from assms(1,2) have ne: "info n \<noteq> []" by auto
  from hd_re_split_ws [of "info n"] assms(1) obtain ws where
    sp: "re_split_ws (info n) = w # ws" by auto
  show ?thesis
    using ne sp assms(2,3)
    by (simp add: renderCodeBlock_def Let_def tag_no_attrs tag_one_attr out_def cr_def)
qed

lemma lookup_render_CodeBlock: "lookup_render ''CodeBlock'' = Some renderCodeBlock"
  by (simp add: lookup_render_def)

text \<open>
  Claim C8. Rendering the single event of a CodeBlock node with info string
  \<^verbatim>\<open>python extra\<close> and literal \<^verbatim>\<open>a=1\n\<close>, from the state that \<open>renderNodes\<close> sets
  up, returns \<^verbatim>\<open><pre><code class="language-python">a=1\n</code></pre>\n\<close>, for
  every escaping function that leaves \<^verbatim>\<open>python\<close> and \<^verbatim>\<open>a=1\n\<close> as they are (they
  hold no character to escape) and every renderer that does not ask for source
  positions.
\<close>

theorem renderNodes_code_block_example:
  assumes "esc ''python'' True = ''python''"
    and "esc ''a=1\<newline>'' False = ''a=1\<newline>''"
    and "t n = ''CodeBlock''" and "info n = ''python extra''" and "literal n = ''a=1\<newline>''"
    and "\<not> dict_get_truthy (options self) ''sourcepos''"
  shows "renderNodes esc self [\<lparr>entering = ent, node = n\<rparr>]
         = Inr ''<pre><code class=\"language-python\">a=1\<newline></code></pre>\<newline>''"
proof -
  have w: "takeWhile (\<lambda>c. \<not> is_space c) (info n) = ''python''"
    using assms(4) by (simp add: is_space_def)
  have cb: "renderCodeBlock esc self \<lparr>entering = ent, node = n\<rparr> n [] ent initial_state
            = Inr (initial_state\<lparr>buf := ''<pre><code class=\"language-python\">a=1\<newline></code></pre>\<newline>'',
                                 last_out := ''\<newline>''\<rparr>)"
    using renderCodeBlock_first_word [OF w, of initial_state esc self _ ent] assms(1,2,5)
    by (simp add: initial_state_def cr_def)
  have "render_event esc self \<lparr>entering = ent, node = n\<rparr> initial_state
        = Inr (initial_state\<lparr>buf := ''<pre><code class=\"language-python\">a=1\<newline></code></pre>\<newline>'',
                             last_out := ''\<newline>''\<rparr>)"
    using cb assms(3,6)
    by (simp add: render_event_def sourcepos_attrs_def dispatch_def lookup_render_CodeBlock)
  then show ?thesis
    by (simp add: renderNodes_def)
qed

theorem renderNodes_code_block_example_witness:
  "renderNodes escape_xml \<lparr>softbreak = ''\<newline>'', options = Map.empty\<rparr>
     [\<lparr>entering = True,
       node = Node ''CodeBlock'' ''a=1\<newline>'' [] [] ''python extra'' 0 [] [] Map.empty None None\<rparr>]
   = Inr ''<pre><code class=\"language-python\">a=1\<newline></code></pre>\<newline>''"
  by (rule renderNodes_code_block_example) (simp_all add: dict_get_truthy_def)

subsection \<open>Links\<close>

text \<open>
  Claim C3. On entering a Link node, \<open>renderLink\<close> emits the tag \<^verbatim>\<open>a\<close> built
  from the attribute list it was given, followed by an \<^verbatim>\<open>href\<close> attribute holding
  the escaped destination unless the option \<^verbatim>\<open>safe\<close> is true and the destination
  is classified unsafe (then no \<^verbatim>\<open>href\<close> is added), followed by a \<^verbatim>\<open>title\<close>
  attribute holding the escaped title exactly when the title is not empty. The
  resulting state is given field by field: the tag is the last output, and the
  buffer grows by the tag (by what the tag pattern leaves of it while the
  suppression counter is positive). For the empty attribute list that the loop
  passes and a counter that is not positive, the four possible texts are
  spelled out.
\<close>

theorem renderLink_opening_tag:
  "(dict_get_truthy (options self) ''safe'' \<and> potentially_unsafe (destination n) \<longrightarrow>
      (let tg = tag ''a'' (attrs @ (if title n \<noteq> [] then [(''title'', esc (title n) True)]
                                     else [])) False
       in renderLink esc self ev n attrs True st
            = Inr (st\<lparr>buf := buf st @ (if 0 < disable_tags st then reHtmlTag_sub tg else tg),
                       last_out := tg\<rparr>))
      \<and> (\<not> 0 < disable_tags st \<longrightarrow>
           (let tg = (if title n \<noteq> [] then ''<a title=\"'' @ esc (title n) True @ ''\">''
                      else ''<a>'')
            in renderLink esc self ev n [] True st
                 = Inr (st\<lparr>buf := buf st @ tg, last_out := tg\<rparr>))))
   \<and> (\<not> (dict_get_truthy (options self) ''safe'' \<and> potentially_unsafe (destination n)) \<longrightarrow>
      (let tg = tag ''a'' (attrs @ [(''href'', esc (destination n) True)]
                            @ (if title n \<noteq> [] then [(''title'', esc (title n) True)]
                               else [])) False
       in renderLink esc self ev n attrs True st
            = Inr (st\<lparr>buf := buf st @ (if 0 < disable_tags st then reHtmlTag_sub tg else tg),
                       last_out := tg\<rparr>))
      \<and> (\<not> 0 < disable_tags st \<longrightarrow>
           (let tg = (if title n \<noteq> []
                      then ''<a href=\"'' @ esc (destination n) True
                           @ ''\" title=\"'' @ esc (title n) True @ ''\">''
                      else ''<a href=\"'' @ esc (destination n) True @ ''\">'')
            in renderLink esc self ev n [] True st
                 = Inr (st\<lparr>buf := buf st @ tg, last_out := tg\<rparr>))))"
  by (simp add: renderLink_def Let_def out_state tag_no_attrs tag_one_attr tag_two_attrs)

theorem renderLink_opening_tag_witness:
  "dict_get_truthy (options example_renderer) ''safe''
   \<and> potentially_unsafe (destination example_link)
   \<and> \<not> 0 < disable_tags initial_state
   \<and> renderLink escape_xml example_renderer \<lparr>entering = True, node = example_link\<rparr>
        example_link [] True initial_state
     = Inr \<lparr>buf = ''<a>'', last_out = ''<a>'', disable_tags = 0\<rparr>
   \<and> \<not> potentially_unsafe (destination example_safe_link)
   \<and> renderLink escape_xml example_renderer \<lparr>entering = True, node = example_safe_link\<rparr>
        example_safe_link [] True initial_state
     = Inr \<lparr>buf = ''<a href=\"pic.png\">'', last_out = ''<a href=\"pic.png\">'',
            disable_tags = 0\<rparr>
   \<and> renderNodes escape_xml example_renderer
        [\<lparr>entering = True, node = example_link\<rparr>, \<lparr>entering = True, node = example_text\<rparr>,
         \<lparr>entering = False, node = example_link\<rparr>]
     = Inr ''<a>x</a>''
   \<and> renderNodes escape_xml example_renderer
        [\<lparr>entering = True, node = example_safe_link\<rparr>, \<lparr>entering = True, node = example_text\<rparr>,
         \<lparr>entering = False, node = example_safe_link\<rparr>]
     = Inr ''<a href=\"pic.png\">x</a>''"
proof -
  have safe: "dict_get_truthy (options example_renderer) ''safe''"
    by (simp add: example_renderer_def dict_get_truthy_def)
  have unsafe: "potentially_unsafe (destination example_link)"
    unfolding example_link_def node.sel by code_simp
  have ok: "\<not> potentially_unsafe (destination example_safe_link)"
    unfolding example_safe_link_def node.sel by code_simp
  have t1: "title example_link = []" and t2: "title example_safe_link = []"
    and d2: "destination example_safe_link = ''pic.png''"
    and k1: "t example_link = ''Link''" and k2: "t example_safe_link = ''Link''"
    and k3: "t example_text = ''Text''" and l3: "literal example_text = ''x''"
    and s1: "sourcepos example_link = None" and s2: "sourcepos example_safe_link = None"
    and s3: "sourcepos example_text = None"
    by (simp_all add: example_link_def example_safe_link_def example_text_def)
  have z: "\<not> 0 < disable_tags initial_state"
    by (simp add: initial_state_def)
  have a: "renderLink escape_xml example_renderer \<lparr>entering = True, node = example_link\<rparr>
             example_link [] True initial_state
           = Inr \<lparr>buf = ''<a>'', last_out = ''<a>'', disable_tags = 0\<rparr>"
    using safe unsafe t1 z
      renderLink_opening_tag [where self = example_renderer and n = example_link
        and esc = escape_xml and ev = "\<lparr>entering = True, node = example_link\<rparr>"
        and attrs = "[]" and st = initial_state]
    by (simp add: initial_state_def Let_def tag_no_attrs tag_one_attr)
  have b: "renderLink escape_xml example_renderer \<lparr>entering = True, node = example_safe_link\<rparr>
             example_safe_link [] True initial_state
           = Inr \<lparr>buf = ''<a href=\"pic.png\">'', last_out = ''<a href=\"pic.png\">'',
                  disable_tags = 0\<rparr>"
    using ok t2 d2 z
      renderLink_opening_tag [where self = example_renderer and n = example_safe_link
        and esc = escape_xml and ev = "\<lparr>entering = True, node = example_safe_link\<rparr>"
        and attrs = "[]" and st = initial_state]
    by (simp add: initial_state_def Let_def tag_no_attrs tag_one_attr)
  have lk: "lookup_render ''Link'' = Some renderLink" "lookup_render ''Text'' = Some renderText"
    by (simp_all add: lookup_render_def)
  have ns: "\<not> dict_get_truthy (options example_renderer) ''sourcepos''"
    by (simp add: example_renderer_def dict_get_truthy_def)
  have c: "renderNodes escape_xml example_renderer
             [\<lparr>entering = True, node = example_link\<rparr>, \<lparr>entering = True, node = example_text\<rparr>,
              \<lparr>entering = False, node = example_link\<rparr>]
           = Inr ''<a>x</a>''"
    using a
    by (simp add: renderNodes_def render_event_def sourcepos_attrs_def ns dispatch_def lk k1 k3 l3
          renderText_def renderLink_def out_def tag_no_attrs)
  have d: "renderNodes escape_xml example_renderer
             [\<lparr>entering = True, node = example_safe_link\<rparr>, \<lparr>entering = True, node = example_text\<rparr>,
              \<lparr>entering = False, node = example_safe_link\<rparr>]
           = Inr ''<a href=\"pic.png\">x</a>''"
    using b
    by (simp add: renderNodes_def render_event_def sourcepos_attrs_def ns dispatch_def lk k2 k3 l3
          renderText_def renderLink_def out_def tag_no_attrs)
  from safe unsafe z a ok b c d show ?thesis by blast
qed

subsection \<open>Paragraphs\<close>

lemma lookup_render_Paragraph: "lookup_render ''Paragraph'' = Some renderParagraph"
  by (simp add: lookup_render_def)

lemma renderParagraph_no_parent:
  "parent n = None \<Longrightarrow> renderParagraph esc self ev n attrs ent st = Inl (AttributeError ''parent'')"
  by (simp add: renderParagraph_def)

text \<open>
  Claim C7. For a Paragraph node inside a tree (it has a parent, as every
  paragraph of a document has): when its grandparent exists, is a List node and
  has its tight flag set, \<open>renderParagraph\<close> returns the state as it is, on
  entering and on leaving, without an error, so that the loop goes on with the
  events of the children; otherwise, entering appends a newline unless the last
  output was one, then the opening tag \<^verbatim>\<open>p\<close> with the attributes, which becomes
  the last output, and leaving appends \<^verbatim>\<open></p>\<close> and then a newline, which becomes
  the last output. While the suppression counter is positive the buffer
  receives what the tag pattern leaves of the tags.
\<close>

theorem renderParagraph_tight_list:
  assumes "parent n \<noteq> None"
  shows "(tight_list_grandparent n \<longrightarrow>
            renderParagraph esc self ev n attrs ent st = Inr st
            \<and> (t n = ''Paragraph'' \<and> node ev = n \<and> sourcepos_attrs self n = Inr attrs \<longrightarrow>
                 run_events esc self (ev # evs) st = run_events esc self evs st))
         \<and> (\<not> tight_list_grandparent n \<longrightarrow>
            (let tg = tag ''p'' attrs False
             in renderParagraph esc self ev n attrs True st
                  = Inr (st\<lparr>buf := buf st @ (if last_out st = ''\<newline>'' then [] else ''\<newline>'')
                                    @ (if 0 < disable_tags st then reHtmlTag_sub tg else tg),
                             last_out := tg\<rparr>))
            \<and> (\<not> 0 < disable_tags st \<longrightarrow>
                 renderParagraph esc self ev n [] True st
                   = Inr (st\<lparr>buf := buf st @ (if last_out st = ''\<newline>'' then [] else ''\<newline>'')
                                     @ ''<p>'',
                              last_out := ''<p>''\<rparr>))
            \<and> renderParagraph esc self ev n attrs False st
                = Inr (st\<lparr>buf := buf st @ (if 0 < disable_tags st then [] else ''</p>'')
                                  @ ''\<newline>'',
                           last_out := ''\<newline>''\<rparr>))"
proof -
  from assms obtain p where p: "parent n = Some p" by auto
  show ?thesis
  proof (cases "tight_list_grandparent n")
    case True
    then have r: "renderParagraph esc self ev n attrs e st = Inr st" for e
      using p by (auto simp: renderParagraph_def tight_list_grandparent_def split: option.splits)
    then show ?thesis
      using True
      by (auto simp: render_event_def dispatch_def lookup_render_Paragraph)
  next
    case False
    have sub: "reHtmlTag_sub ''</p>'' = []" by simp
    from False p have g: "\<not> (case parent p of None \<Rightarrow> False
                               | Some g \<Rightarrow> t g = ''List'' \<and> dict_get_truthy (list_data g) ''tight'')"
      by (simp add: tight_list_grandparent_def)
    have ent: "renderParagraph esc self ev n as True st
                 = Inr (st\<lparr>buf := buf st @ (if last_out st = ''\<newline>'' then [] else ''\<newline>'')
                                   @ (if 0 < disable_tags st then reHtmlTag_sub (tag ''p'' as False)
                                      else tag ''p'' as False),
                            last_out := tag ''p'' as False\<rparr>)" for as
      using p g by (simp add: renderParagraph_def Let_def out_state cr_state)
    have ext: "renderParagraph esc self ev n attrs False st
                 = Inr (st\<lparr>buf := buf st @ (if 0 < disable_tags st then [] else ''</p>'')
                                   @ ''\<newline>'',
                            last_out := ''\<newline>''\<rparr>)"
      using p g by (simp add: renderParagraph_def Let_def out_state cr_state tag_no_attrs sub)
    show ?thesis
      using False ent [of attrs] ent [of "[]"] ext
      by (simp add: Let_def tag_no_attrs)
  qed
qed

theorem renderParagraph_tight_list_witness:
  "parent example_paragraph \<noteq> None \<and> tight_list_grandparent example_paragraph
   \<and> renderParagraph escape_xml example_renderer \<lparr>entering = True, node = example_paragraph\<rparr>
        example_paragraph [] True \<lparr>buf = ''<ul>\<newline><li>'', last_out = ''<li>'', disable_tags = 0\<rparr>
     = Inr \<lparr>buf = ''<ul>\<newline><li>'', last_out = ''<li>'', disable_tags = 0\<rparr>
   \<and> parent example_loose_paragraph \<noteq> None \<and> \<not> tight_list_grandparent example_loose_paragraph
   \<and> renderParagraph escape_xml example_renderer
        \<lparr>entering = True, node = example_loose_paragraph\<rparr> example_loose_paragraph [] True
        \<lparr>buf = ''<h1>a</h1>'', last_out = ''</h1>'', disable_tags = 0\<rparr>
     = Inr \<lparr>buf = ''<h1>a</h1>\<newline><p>'', last_out = ''<p>'', disable_tags = 0\<rparr>
   \<and> renderParagraph escape_xml example_renderer
        \<lparr>entering = False, node = example_loose_paragraph\<rparr> example_loose_paragraph [] False
        \<lparr>buf = ''<p>x'', last_out = ''x'', disable_tags = 0\<rparr>
     = Inr \<lparr>buf = ''<p>x</p>\<newline>'', last_out = ''\<newline>'', disable_tags = 0\<rparr>
   \<and> renderNodes escape_xml example_renderer
        [\<lparr>entering = True, node = example_list\<rparr>, \<lparr>entering = True, node = example_item\<rparr>,
         \<lparr>entering = True, node = example_paragraph\<rparr>, \<lparr>entering = True, node = example_one\<rparr>,
         \<lparr>entering = False, node = example_paragraph\<rparr>, \<lparr>entering = False, node = example_item\<rparr>,
         \<lparr>entering = False, node = example_list\<rparr>]
     = Inr ''<ul>\<newline><li>one</li>\<newline></ul>\<newline>''
   \<and> renderNodes escape_xml example_renderer
        [\<lparr>entering = True, node = example_document\<rparr>,
         \<lparr>entering = True, node = example_loose_paragraph\<rparr>,
         \<lparr>entering = True, node = example_text\<rparr>,
         \<lparr>entering = False, node = example_loose_paragraph\<rparr>,
         \<lparr>entering = False, node = example_document\<rparr>]
     = Inr ''<p>x</p>\<newline>''"
proof -
  have a: "parent example_paragraph \<noteq> None" and b: "tight_list_grandparent example_paragraph"
    and c: "parent example_loose_paragraph \<noteq> None"
    and d: "\<not> tight_list_grandparent example_loose_paragraph"
    by (simp_all add: tight_list_grandparent_def example_paragraph_def example_item_def
          example_list_def example_loose_paragraph_def example_document_def dict_get_truthy_def)
  have w1: "renderParagraph escape_xml example_renderer
              \<lparr>entering = True, node = example_paragraph\<rparr> example_paragraph [] True
              \<lparr>buf = ''<ul>\<newline><li>'', last_out = ''<li>'', disable_tags = 0\<rparr>
            = Inr \<lparr>buf = ''<ul>\<newline><li>'', last_out = ''<li>'', disable_tags = 0\<rparr>"
    using b renderParagraph_tight_list [OF a, where esc = escape_xml and self = example_renderer
        and ev = "\<lparr>entering = True, node = example_paragraph\<rparr>" and attrs = "[]"
        and ent = True and evs = "[]"
        and st = "\<lparr>buf = ''<ul>\<newline><li>'', last_out = ''<li>'', disable_tags = 0\<rparr>"]
    by simp
  have w2: "renderParagraph escape_xml example_renderer
              \<lparr>entering = True, node = example_loose_paragraph\<rparr> example_loose_paragraph [] True
              \<lparr>buf = ''<h1>a</h1>'', last_out = ''</h1>'', disable_tags = 0\<rparr>
            = Inr \<lparr>buf = ''<h1>a</h1>\<newline><p>'', last_out = ''<p>'', disable_tags = 0\<rparr>"
    using d renderParagraph_tight_list [OF c, where esc = escape_xml and self = example_renderer
        and ev = "\<lparr>entering = True, node = example_loose_paragraph\<rparr>" and attrs = "[]"
        and ent = True and evs = "[]"
        and st = "\<lparr>buf = ''<h1>a</h1>'', last_out = ''</h1>'', disable_tags = 0\<rparr>"]
    by simp
  have w3: "renderParagraph escape_xml example_renderer
              \<lparr>entering = False, node = example_loose_paragraph\<rparr> example_loose_paragraph []
              False \<lparr>buf = ''<p>x'', last_out = ''x'', disable_tags = 0\<rparr>
            = Inr \<lparr>buf = ''<p>x</p>\<newline>'', last_out = ''\<newline>'', disable_tags = 0\<rparr>"
    using d renderParagraph_tight_list [OF c, where esc = escape_xml and self = example_renderer
        and ev = "\<lparr>entering = False, node = example_loose_paragraph\<rparr>" and attrs = "[]"
        and ent = False and evs = "[]"
        and st = "\<lparr>buf = ''<p>x'', last_out = ''x'', disable_tags = 0\<rparr>"]
    by simp
  have ns: "\<not> dict_get_truthy (options example_renderer) ''sourcepos''"
    by (simp add: example_renderer_def dict_get_truthy_def)
  have lk: "lookup_render ''List'' = Some renderList" "lookup_render ''Item'' = Some renderItem"
    "lookup_render ''Text'' = Some renderText" "lookup_render ''Document'' = Some renderDocument"
    by (simp_all add: lookup_render_def)
  have w4: "renderNodes escape_xml example_renderer
        [\<lparr>entering = True, node = example_list\<rparr>, \<lparr>entering = True, node = example_item\<rparr>,
         \<lparr>entering = True, node = example_paragraph\<rparr>, \<lparr>entering = True, node = example_one\<rparr>,
         \<lparr>entering = False, node = example_paragraph\<rparr>, \<lparr>entering = False, node = example_item\<rparr>,
         \<lparr>entering = False, node = example_list\<rparr>]
     = Inr ''<ul>\<newline><li>one</li>\<newline></ul>\<newline>''"
    by (simp add: renderNodes_def render_event_def sourcepos_attrs_def ns dispatch_def lk
          lookup_render_Paragraph renderList_def renderItem_def renderParagraph_def
          renderText_def example_list_def example_item_def example_paragraph_def
          example_one_def dict_get_truthy_def out_def cr_def tag_def initial_state_def Let_def)
  have w5: "renderNodes escape_xml example_renderer
        [\<lparr>entering = True, node = example_document\<rparr>,
         \<lparr>entering = True, node = example_loose_paragraph\<rparr>,
         \<lparr>entering = True, node = example_text\<rparr>,
         \<lparr>entering = False, node = example_loose_paragraph\<rparr>,
         \<lparr>entering = False, node = example_document\<rparr>]
     = Inr ''<p>x</p>\<newline>''"
    by (simp add: renderNodes_def render_event_def sourcepos_attrs_def ns dispatch_def lk
          lookup_render_Paragraph renderDocument_def renderParagraph_def
          renderText_def example_document_def example_loose_paragraph_def
          example_text_def out_def cr_def tag_def initial_state_def Let_def)
  from a b w1 c d w2 w3 w4 w5 show ?thesis by blast
qed

subsection \<open>Dispatch\<close>

lemma run_events_append:
  "run_events esc self (pre @ post) st0 =
     (case run_events esc self pre st0 of
        (st, None) \<Rightarrow> run_events esc self post st
      | (st, Some e) \<Rightarrow> (st, Some e))"
  by (induction pre arbitrary: st0) (auto split: sum.splits)

lemma lookup_render_None:
  "lookup_render name = None \<longleftrightarrow>
     name \<notin> set [''Text'', ''Softbreak'', ''Hardbreak'', ''Emph'', ''Strong'', ''HtmlInline'',
                  ''CustomInline'', ''Link'', ''Image'', ''Code'', ''Document'', ''Paragraph'',
                  ''BlockQuote'', ''Item'', ''List'', ''Heading'', ''CodeBlock'', ''HtmlBlock'',
                  ''CustomBlock'', ''ThematicBreak'', ''Nodes'', '''']"
  unfolding lookup_render_def map_of_eq_None_iff by simp

text \<open>A node type for which \<^verbatim>\<open>getattr\<close> fails: the dispatcher raises
  \<^verbatim>\<open>ValueError\<close> with the message \<^verbatim>\<open>Unknown node type\<close> followed by the type. A
  render call that has processed the events before it without an error stops
  at that event with the state reached before it, whatever events follow; the
  error is the dispatcher's whenever the dispatcher is reached, that is, unless
  the source position option is on and the node carries a position.\<close>

lemma dispatch_no_method:
  assumes "lookup_render (t (node ev)) = None"
    and "run_events esc self pre st0 = (st, None)"
  shows "dispatch esc self ev (node ev) attrs (entering ev) st
           = Inl (ValueError (''Unknown node type '' @ t (node ev)))
         \<and> fst (run_events esc self (pre @ ev # post) st0) = st
         \<and> snd (run_events esc self (pre @ ev # post) st0) \<noteq> None
         \<and> (\<not> (dict_get_truthy (options self) ''sourcepos'' \<and> sourcepos (node ev) \<noteq> None) \<longrightarrow>
              run_events esc self (pre @ ev # post) st0
                = (st, Some (ValueError (''Unknown node type '' @ t (node ev))))
              \<and> (st0 = initial_state \<longrightarrow>
                   renderNodes esc self (pre @ ev # post)
                     = Inl (ValueError (''Unknown node type '' @ t (node ev)))))"
proof -
  have d: "dispatch esc self ev (node ev) as (entering ev) st
             = Inl (ValueError (''Unknown node type '' @ t (node ev)))" for as
    using assms(1) by (simp add: dispatch_def)
  have r: "run_events esc self (pre @ ev # post) st0
             = (case render_event esc self ev st of
                  Inl e \<Rightarrow> (st, Some e)
                | Inr st' \<Rightarrow> run_events esc self post st')"
    using assms(2) by (simp add: run_events_append)
  have e: "render_event esc self ev st
             = (case sourcepos_attrs self (node ev) of
                  Inl e \<Rightarrow> Inl e
                | Inr as \<Rightarrow> Inl (ValueError (''Unknown node type '' @ t (node ev))))"
    by (simp add: render_event_def Let_def d split: sum.splits)
  have s: "\<not> (dict_get_truthy (options self) ''sourcepos'' \<and> sourcepos (node ev) \<noteq> None) \<Longrightarrow>
           sourcepos_attrs self (node ev) = Inr []"
    by (cases "sourcepos (node ev)") (auto simp: sourcepos_attrs_def)
  have abort: "fst (run_events esc self (pre @ ev # post) st0) = st
               \<and> snd (run_events esc self (pre @ ev # post) st0) \<noteq> None"
    by (simp add: r e split: sum.splits)
  have reached: "run_events esc self (pre @ ev # post) st0
                   = (st, Some (ValueError (''Unknown node type '' @ t (node ev))))"
    if "\<not> (dict_get_truthy (options self) ''sourcepos'' \<and> sourcepos (node ev) \<noteq> None)"
    using s [OF that] by (simp add: r e del: append.simps)
  have "renderNodes esc self (pre @ ev # post)
          = Inl (ValueError (''Unknown node type '' @ t (node ev)))"
    if "\<not> (dict_get_truthy (options self) ''sourcepos'' \<and> sourcepos (node ev) \<noteq> None)"
      and "st0 = initial_state"
    using reached [OF that(1)] that(2) by (simp add: renderNodes_def del: append.simps)
  with d [of attrs] abort reached show ?thesis
    by blast
qed


lemma dispatch_no_method_example:
  "lookup_render (t (node \<lparr>entering = True,
       node = Node ''Table'' [] [] [] [] 0 [] [] Map.empty None None\<rparr>)) = None
   \<and> run_events escape_xml example_renderer [\<lparr>entering = True, node = example_text\<rparr>] initial_state
       = (out ''x'' initial_state, None)
   \<and> renderNodes escape_xml example_renderer
        [\<lparr>entering = True, node = example_text\<rparr>,
         \<lparr>entering = True, node = Node ''Table'' [] [] [] [] 0 [] [] Map.empty None None\<rparr>,
         \<lparr>entering = True, node = example_text\<rparr>]
       = Inl (ValueError ''Unknown node type Table'')
   \<and> fst (run_events escape_xml example_renderer
        [\<lparr>entering = True, node = example_text\<rparr>,
         \<lparr>entering = True, node = Node ''Table'' [] [] [] [] 0 [] [] Map.empty None None\<rparr>,
         \<lparr>entering = True, node = example_text\<rparr>] initial_state)
       = out ''x'' initial_state"
proof -
  have a: "lookup_render (t (node \<lparr>entering = True,
             node = Node ''Table'' [] [] [] [] 0 [] [] Map.empty None None\<rparr>)) = None"
    by (simp add: lookup_render_def)
  have b: "run_events escape_xml example_renderer [\<lparr>entering = True, node = example_text\<rparr>]
             initial_state = (out ''x'' initial_state, None)"
    by (simp add: render_event_def sourcepos_attrs_def dispatch_def lookup_render_def
          renderText_def example_text_def example_renderer_def dict_get_truthy_def)
  show ?thesis
    using a b dispatch_no_method [OF a b, of "[]" "[\<lparr>entering = True, node = example_text\<rparr>]"]
    by (simp add: example_renderer_def dict_get_truthy_def)
qed

lemma lookup_render_Nodes:
  "lookup_render ''Nodes'' = Some renderNodes_as_method"
  "lookup_render [] = Some renderNodes_as_method"
  by (simp_all add: lookup_render_def)

text \<open>
  Claim C5. The claim: for every event whose node type has no rendering rule,
  the dispatcher raises an error whose message identifies the type, and the
  render call aborts with what was buffered before. The code finds the rule by
  the name \<^verbatim>\<open>'render' + node.t\<close>: for the node type \<^verbatim>\<open>Nodes\<close>, which has no rendering
  rule, \<^verbatim>\<open>getattr\<close> finds the method \<^verbatim>\<open>renderNodes\<close> itself (and for the empty
  type its alias \<^verbatim>\<open>render\<close>), no \<^verbatim>\<open>ValueError\<close> is raised, and calling the method
  with four arguments raises a \<^verbatim>\<open>TypeError\<close> that does not name the node type.
  The render call still aborts with the state reached before the event.
\<close>

theorem renderNodes_node_type_Nodes:
  "renderNodes esc \<lparr>softbreak = ''\<newline>'', options = Map.empty\<rparr>
     [\<lparr>entering = True, node = Node ''Text'' ''x'' [] [] [] 0 [] [] Map.empty None None\<rparr>,
      \<lparr>entering = True, node = Node ''Nodes'' [] [] [] [] 0 [] [] Map.empty None None\<rparr>]
     = Inl (TypeError ''renderNodes'')
   \<and> renderNodes esc \<lparr>softbreak = ''\<newline>'', options = Map.empty\<rparr>
     [\<lparr>entering = True, node = Node ''Text'' ''x'' [] [] [] 0 [] [] Map.empty None None\<rparr>,
      \<lparr>entering = True, node = Node [] [] [] [] [] 0 [] [] Map.empty None None\<rparr>]
     = Inl (TypeError ''renderNodes'')
   \<and> run_events esc \<lparr>softbreak = ''\<newline>'', options = Map.empty\<rparr>
     [\<lparr>entering = True, node = Node ''Text'' ''x'' [] [] [] 0 [] [] Map.empty None None\<rparr>,
      \<lparr>entering = True, node = Node ''Nodes'' [] [] [] [] 0 [] [] Map.empty None None\<rparr>]
     initial_state
     = (\<lparr>buf = esc ''x'' False, last_out = esc ''x'' False, disable_tags = 0\<rparr>,
        Some (TypeError ''renderNodes''))
   \<and> renderNodes esc \<lparr>softbreak = ''\<newline>'', options = Map.empty\<rparr>
     [\<lparr>entering = True, node = Node ''Text'' ''x'' [] [] [] 0 [] [] Map.empty None None\<rparr>,
      \<lparr>entering = True, node = Node ''Table'' [] [] [] [] 0 [] [] Map.empty None None\<rparr>]
     = Inl (ValueError ''Unknown node type Table'')"
proof -
  have lk: "lookup_render ''Text'' = Some renderText" "lookup_render ''Table'' = None"
    by (simp_all add: lookup_render_def)
  show ?thesis
    by (simp add: renderNodes_def render_event_def sourcepos_attrs_def dispatch_def lk
          lookup_render_Nodes renderText_def renderNodes_as_method_def dict_get_truthy_def
          out_def initial_state_def)
qed

subsection \<open>The suppression counter\<close>

lemma renderImage_disable_tags:
  "renderImage esc self ev n attrs ent st = Inr st' \<Longrightarrow>
   disable_tags st' = disable_tags st + (if ent then 1 else - 1)"
  by (auto simp: renderImage_def Let_def split: if_splits)

lemma other_methods_disable_tags:
  assumes "h \<in> set [renderText, renderSoftbreak, renderHardbreak, renderEmph, renderStrong,
                     renderHtmlInline, renderCustomInline, renderLink, renderCode,
                     renderDocument, renderParagraph, renderBlockQuote, renderItem,
                     renderList, renderHeading, renderCodeBlock, renderHtmlBlock,
                     renderCustomBlock, renderThematicBreak, renderNodes_as_method]"
    and "h esc self ev n attrs ent st = Inr st'"
  shows "disable_tags st' = disable_tags st"
  using assms
  by (auto simp: renderText_def renderSoftbreak_def renderHardbreak_def renderEmph_def
        renderStrong_def renderHtmlInline_def renderCustomInline_def renderLink_def
        renderCode_def renderDocument_def renderParagraph_def renderBlockQuote_def
        renderItem_def renderList_def renderHeading_def renderCodeBlock_def
        renderHtmlBlock_def renderCustomBlock_def renderThematicBreak_def
        renderNodes_as_method_def Let_def
      split: if_splits option.splits list.splits)

lemma lookup_render_cases:
  assumes "lookup_render name = Some h"
  shows "(name = ''Image'' \<and> h = renderImage)
         \<or> (name \<noteq> ''Image''
            \<and> h \<in> set [renderText, renderSoftbreak, renderHardbreak, renderEmph, renderStrong,
                        renderHtmlInline, renderCustomInline, renderLink, renderCode,
                        renderDocument, renderParagraph, renderBlockQuote, renderItem,
                        renderList, renderHeading, renderCodeBlock, renderHtmlBlock,
                        renderCustomBlock, renderThematicBreak, renderNodes_as_method])"
  using assms unfolding lookup_render_def
  by (auto split: if_splits)

lemma render_event_disable_tags:
  assumes "render_event esc self ev st = Inr st'"
  shows "disable_tags st' = disable_tags st
           + (if t (node ev) = ''Image'' then (if entering ev then 1 else - 1) else 0)"
proof -
  from assms obtain attrs h where
    h: "lookup_render (t (node ev)) = Some h"
    and r: "h esc self ev (node ev) attrs (entering ev) st = Inr st'"
    by (auto simp: render_event_def dispatch_def Let_def split: sum.splits option.splits)
  from lookup_render_cases [OF h] show ?thesis
  proof
    assume "t (node ev) = ''Image'' \<and> h = renderImage"
    with r renderImage_disable_tags show ?thesis by auto
  next
    assume a: "t (node ev) \<noteq> ''Image''
      \<and> h \<in> set [renderText, renderSoftbreak, renderHardbreak, renderEmph, renderStrong,
                  renderHtmlInline, renderCustomInline, renderLink, renderCode,
                  renderDocument, renderParagraph, renderBlockQuote, renderItem,
                  renderList, renderHeading, renderCodeBlock, renderHtmlBlock,
                  renderCustomBlock, renderThematicBreak, renderNodes_as_method]"
    then have "disable_tags st' = disable_tags st"
      using other_methods_disable_tags
              [of h esc self ev "node ev" attrs "entering ev" st st'] r
      by blast
    with a show ?thesis by simp
  qed
qed

lemma image_counts_Cons:
  "image_enters (ev # evs)
     = (if t (node ev) = ''Image'' \<and> entering ev then 1 else 0) + image_enters evs"
  "image_exits (ev # evs)
     = (if t (node ev) = ''Image'' \<and> \<not> entering ev then 1 else 0) + image_exits evs"
  by (simp_all add: image_enters_def image_exits_def)

lemma image_counts_Nil: "image_enters [] = 0" "image_exits [] = 0"
  by (simp_all add: image_enters_def image_exits_def)

lemma run_events_disable_tags:
  "run_events esc self evs st = (st', None) \<Longrightarrow>
   disable_tags st' = disable_tags st + int (image_enters evs) - int (image_exits evs)"
proof (induction evs arbitrary: st)
  case Nil
  then show ?case by (simp add: image_counts_Nil)
next
  case (Cons ev evs)
  from Cons.prems obtain st1 where
    s1: "render_event esc self ev st = Inr st1"
    and s2: "run_events esc self evs st1 = (st', None)"
    by (auto split: sum.splits)
  from Cons.IH [OF s2] render_event_disable_tags [OF s1] show ?case
    by (simp add: image_counts_Cons)
qed



lemma example_run:
  "run_events escape_xml example_renderer
     [\<lparr>entering = True, node = example_image\<rparr>, \<lparr>entering = True, node = example_text\<rparr>]
     initial_state
   = (\<lparr>buf = ''<img src=\"pic.png\" alt=\"x'', last_out = ''x'', disable_tags = 1\<rparr>, None)"
proof -
  have ok: "\<not> potentially_unsafe ''pic.png''" by code_simp
  show ?thesis
    using ok
    by (simp add: render_event_def sourcepos_attrs_def dispatch_def lookup_render_def
          renderImage_def renderText_def example_image_def example_text_def
          example_renderer_def dict_get_truthy_def out_def initial_state_def Let_def)
qed

lemma example_counts:
  "image_enters [\<lparr>entering = True, node = example_image\<rparr>,
                 \<lparr>entering = True, node = example_text\<rparr>] = 1"
  "image_exits [\<lparr>entering = True, node = example_image\<rparr>,
                \<lparr>entering = True, node = example_text\<rparr>] = 0"
  by (simp_all add: image_enters_def image_exits_def example_image_def example_text_def)



subsection \<open>Nested images\<close>

text \<open>
  Claim C10. Let the loop have processed the events \<open>p\<close> without an error. If
  an Image node is open then (more Image-enter than Image-exit events in \<open>p\<close>),
  entering a further Image node only increments the counter: buffer and last
  output stay as they are, so no \<^verbatim>\<open><img src="..." alt="\<close> is emitted. If two or
  more are open, leaving an Image node only decrements the counter: no title
  segment and no \<^verbatim>\<open>" />\<close> is emitted. If none is open, entering an Image node
  emits the prefix, with an empty source when the option \<^verbatim>\<open>safe\<close> is true and
  the destination is classified unsafe; if exactly one is open, leaving it
  emits the title segment, when the title is not empty, and the suffix.
\<close>

theorem renderImage_nested:
  assumes "run_events esc self p initial_state = (st, None)"
  shows "(image_exits p < image_enters p \<longrightarrow>
            renderImage esc self ev n attrs True st
              = Inr (st\<lparr>disable_tags := disable_tags st + 1\<rparr>))
         \<and> (image_exits p + 1 < image_enters p \<longrightarrow>
            renderImage esc self ev n attrs False st
              = Inr (st\<lparr>disable_tags := disable_tags st - 1\<rparr>))
         \<and> (image_exits p = image_enters p \<longrightarrow>
            renderImage esc self ev n attrs True st
              = Inr ((out (''<img src=\"''
                           @ (if dict_get_truthy (options self) ''safe''
                                 \<and> potentially_unsafe (destination n)
                              then [] else esc (destination n) True)
                           @ ''\" alt=\"'') st)\<lparr>disable_tags := 1\<rparr>))
         \<and> (image_exits p + 1 = image_enters p \<longrightarrow>
            renderImage esc self ev n attrs False st
              = Inr (out ''\" />''
                     (if title n \<noteq> []
                      then out (''\" title=\"'' @ esc (title n) True) (st\<lparr>disable_tags := 0\<rparr>)
                      else st\<lparr>disable_tags := 0\<rparr>)))"
proof -
  have a: "disable_tags st = int (image_enters p) - int (image_exits p)"
    using run_events_disable_tags [OF assms] by (simp add: initial_state_def)
  have open_one: "disable_tags st \<noteq> 0" if "image_exits p < image_enters p"
    using a that by simp
  have open_two: "disable_tags st - 1 \<noteq> 0" if "image_exits p + 1 < image_enters p"
    using a that by simp
  have open_none: "disable_tags st = 0" if "image_exits p = image_enters p"
    using a that by simp
  have open_last: "disable_tags st - 1 = 0" if "image_exits p + 1 = image_enters p"
    using a that by linarith
  show ?thesis
    using open_one open_two open_none open_last
    by (simp add: renderImage_def Let_def)
qed

theorem renderImage_nested_witness:
  "run_events escape_xml example_renderer
     [\<lparr>entering = True, node = example_image\<rparr>, \<lparr>entering = True, node = example_text\<rparr>]
     initial_state
   = (\<lparr>buf = ''<img src=\"pic.png\" alt=\"x'', last_out = ''x'', disable_tags = 1\<rparr>, None)
   \<and> image_exits [\<lparr>entering = True, node = example_image\<rparr>,
                  \<lparr>entering = True, node = example_text\<rparr>]
     < image_enters [\<lparr>entering = True, node = example_image\<rparr>,
                     \<lparr>entering = True, node = example_text\<rparr>]
   \<and> renderImage escape_xml example_renderer \<lparr>entering = True, node = example_image\<rparr>
        example_image [] True
        \<lparr>buf = ''<img src=\"pic.png\" alt=\"x'', last_out = ''x'', disable_tags = 1\<rparr>
     = Inr \<lparr>buf = ''<img src=\"pic.png\" alt=\"x'', last_out = ''x'', disable_tags = 2\<rparr>
   \<and> renderImage escape_xml example_renderer \<lparr>entering = False, node = example_image\<rparr>
        example_image [] False
        \<lparr>buf = ''<img src=\"pic.png\" alt=\"x'', last_out = ''x'', disable_tags = 1\<rparr>
     = Inr \<lparr>buf = ''<img src=\"pic.png\" alt=\"x\" />'', last_out = ''\" />'',
            disable_tags = 0\<rparr>"
  using example_run example_counts
    renderImage_nested [OF example_run,
      of "\<lparr>entering = True, node = example_image\<rparr>" example_image "[]"]
    renderImage_nested [OF example_run,
      of "\<lparr>entering = False, node = example_image\<rparr>" example_image "[]"]
  by (simp add: example_image_def out_def)

subsection \<open>Construction and the options\<close>

lemma methods_options_truth:
  assumes "softbreak self = softbreak self'"
    and "dict_get_truthy (options self) ''safe'' = dict_get_truthy (options self') ''safe''"
    and "lookup_render name = Some h"
  shows "h esc self ev n attrs ent st = h esc self' ev n attrs ent st"
proof -
  from lookup_render_cases [OF assms(3)] show ?thesis
  proof
    assume "name = ''Image'' \<and> h = renderImage"
    with assms(2) show ?thesis by (simp add: renderImage_def)
  next
    assume "name \<noteq> ''Image''
      \<and> h \<in> set [renderText, renderSoftbreak, renderHardbreak, renderEmph, renderStrong,
                  renderHtmlInline, renderCustomInline, renderLink, renderCode,
                  renderDocument, renderParagraph, renderBlockQuote, renderItem,
                  renderList, renderHeading, renderCodeBlock, renderHtmlBlock,
                  renderCustomBlock, renderThematicBreak, renderNodes_as_method]"
    with assms(1,2) show ?thesis
      by (auto simp: renderText_def renderSoftbreak_def renderHardbreak_def renderEmph_def
            renderStrong_def renderHtmlInline_def renderCustomInline_def renderLink_def
            renderCode_def renderDocument_def renderParagraph_def renderBlockQuote_def
            renderItem_def renderList_def renderHeading_def renderCodeBlock_def
            renderHtmlBlock_def renderCustomBlock_def renderThematicBreak_def
            renderNodes_as_method_def)
  qed
qed

lemma render_event_options_truth:
  assumes "softbreak self = softbreak self'"
    and "dict_get_truthy (options self) ''safe'' = dict_get_truthy (options self') ''safe''"
    and "dict_get_truthy (options self) ''sourcepos''
         = dict_get_truthy (options self') ''sourcepos''"
  shows "render_event esc self ev st = render_event esc self' ev st"
proof -
  have s: "sourcepos_attrs self (node ev) = sourcepos_attrs self' (node ev)"
    using assms(3) by (simp add: sourcepos_attrs_def)
  have d: "dispatch esc self ev (node ev) as (entering ev) st
           = dispatch esc self' ev (node ev) as (entering ev) st" for as
  proof (cases "lookup_render (t (node ev))")
    case None
    then show ?thesis by (simp add: dispatch_def)
  next
    case (Some h)
    with methods_options_truth [OF assms(1,2) Some] show ?thesis
      by (simp add: dispatch_def)
  qed
  show ?thesis
    by (simp add: render_event_def Let_def s d split: sum.splits)
qed

lemma run_events_options_truth:
  assumes "softbreak self = softbreak self'"
    and "dict_get_truthy (options self) ''safe'' = dict_get_truthy (options self') ''safe''"
    and "dict_get_truthy (options self) ''sourcepos''
         = dict_get_truthy (options self') ''sourcepos''"
  shows "run_events esc self evs st = run_events esc self' evs st"
proof (induction evs arbitrary: st)
  case Nil
  show ?case by simp
next
  case (Cons ev evs)
  show ?case
    using Cons.IH render_event_options_truth [OF assms, of esc ev st]
    by (simp split: sum.splits)
qed

lemma sourcepos_attrs_truth:
  "sourcepos_attrs self n
   = (if dict_get_truthy (options self) ''sourcepos'' \<and> sourcepos n \<noteq> None
      then Inl (AttributeError ''push'') else Inr [])"
  by (cases "sourcepos n") (simp_all add: sourcepos_attrs_def)

text \<open>
  Claim C9, as stated, fails: constructing a renderer with the string \<^verbatim>\<open>no\<close> as
  the value of the option \<^verbatim>\<open>safe\<close> succeeds, and rendering an HtmlInline node with
  that renderer treats the non-empty string as true.
\<close>

theorem init_accepts_non_boolean_safe:
  "HtmlRenderer_init [''safe'' \<mapsto> PyStr ''no'']
     = Inr \<lparr>softbreak = ''\<newline>'', options = [''safe'' \<mapsto> PyStr ''no'']\<rparr>
   \<and> renderNodes escape_xml \<lparr>softbreak = ''\<newline>'', options = [''safe'' \<mapsto> PyStr ''no'']\<rparr>
        [\<lparr>entering = True,
          node = Node ''HtmlInline'' ''<b>'' [] [] [] 0 [] [] Map.empty None None\<rparr>]
     = Inr ''<!-- raw HTML omitted -->''"
proof -
  have lk: "lookup_render ''HtmlInline'' = Some renderHtmlInline"
    by (simp add: lookup_render_def)
  show ?thesis
    by (simp add: HtmlRenderer_init_def renderNodes_def render_event_def sourcepos_attrs_def
          dispatch_def lk renderHtmlInline_def dict_get_truthy_def out_def initial_state_def)
qed

text \<open>
  Claim C9, amended. Constructing a renderer never fails: every option mapping,
  also one in which a recognized option holds a value of the wrong shape, is
  stored as it is, and rendering depends on the options only through the Python
  truth values of \<^verbatim>\<open>safe\<close> and \<^verbatim>\<open>sourcepos\<close>: two option mappings that agree on
  these two truth values render every event list alike. At each of the five
  places that read an option the truth value decides: the source position
  branch of the loop is taken when the value of \<^verbatim>\<open>sourcepos\<close> is true; HtmlInline
  and HtmlBlock emit the placeholder instead of the literal, Link leaves out
  \<^verbatim>\<open>href\<close> and Image empties \<^verbatim>\<open>src\<close> for an unsafe destination, when the value of
  \<^verbatim>\<open>safe\<close> is true.
\<close>

theorem init_stores_options:
  "HtmlRenderer_init opts = Inr \<lparr>softbreak = ''\<newline>'', options = opts\<rparr>
   \<and> (HtmlRenderer_init opts = Inr self \<longrightarrow>
        options self = opts
        \<and> (HtmlRenderer_init opts' = Inr self'
             \<and> dict_get_truthy opts ''safe'' = dict_get_truthy opts' ''safe''
             \<and> dict_get_truthy opts ''sourcepos'' = dict_get_truthy opts' ''sourcepos'' \<longrightarrow>
            run_events esc self evs st = run_events esc self' evs st
            \<and> renderNodes esc self evs = renderNodes esc self' evs)
        \<and> sourcepos_attrs self n
            = (if dict_get_truthy opts ''sourcepos'' \<and> sourcepos n \<noteq> None
               then Inl (AttributeError ''push'') else Inr [])
        \<and> (let tx = (if dict_get_truthy opts ''safe''
                      then ''<!-- raw HTML omitted -->'' else literal n)
            in renderHtmlInline esc self ev n attrs ent st
                 = Inr (st\<lparr>buf := buf st @ (if 0 < disable_tags st then reHtmlTag_sub tx else tx),
                            last_out := tx\<rparr>)
               \<and> renderHtmlBlock esc self ev n attrs ent st
                 = Inr (st\<lparr>buf := buf st @ (if 0 < disable_tags st then reHtmlTag_sub tx else tx)
                                   @ (if tx = ''\<newline>'' then [] else ''\<newline>''),
                            last_out := ''\<newline>''\<rparr>))
        \<and> (let tg = tag ''a''
                       (attrs
                        @ (if dict_get_truthy opts ''safe'' \<and> potentially_unsafe (destination n)
                           then [] else [(''href'', esc (destination n) True)])
                        @ (if title n \<noteq> [] then [(''title'', esc (title n) True)] else []))
                       False
            in renderLink esc self ev n attrs True st
                 = Inr (st\<lparr>buf := buf st @ (if 0 < disable_tags st then reHtmlTag_sub tg else tg),
                            last_out := tg\<rparr>))
        \<and> (disable_tags st = 0 \<longrightarrow>
             (let tx = ''<img src=\"''
                       @ (if dict_get_truthy opts ''safe'' \<and> potentially_unsafe (destination n)
                          then [] else esc (destination n) True)
                       @ ''\" alt=\"''
              in renderImage esc self ev n attrs True st
                   = Inr (st\<lparr>buf := buf st @ tx, last_out := tx, disable_tags := 1\<rparr>))))"
proof -
  have i: "HtmlRenderer_init opts = Inr \<lparr>softbreak = ''\<newline>'', options = opts\<rparr>"
    by (simp add: HtmlRenderer_init_def)
  have rest: ?thesis if self: "self = \<lparr>softbreak = ''\<newline>'', options = opts\<rparr>"
  proof -
    have o: "options self = opts" and sb: "softbreak self = ''\<newline>''"
      by (simp_all add: self)
    have inv: "run_events esc self evs st = run_events esc self' evs st
               \<and> renderNodes esc self evs = renderNodes esc self' evs"
      if "HtmlRenderer_init opts' = Inr self'"
        and "dict_get_truthy opts ''safe'' = dict_get_truthy opts' ''safe''"
        and "dict_get_truthy opts ''sourcepos'' = dict_get_truthy opts' ''sourcepos''"
    proof -
      from that(1) have s': "self' = \<lparr>softbreak = ''\<newline>'', options = opts'\<rparr>"
        by (simp add: HtmlRenderer_init_def)
      have e: "run_events esc self evs s0 = run_events esc self' evs s0" for s0
        by (rule run_events_options_truth) (simp_all add: self s' that(2,3))
      show ?thesis
        by (simp add: e renderNodes_def)
    qed
    have sp: "sourcepos_attrs self n
              = (if dict_get_truthy opts ''sourcepos'' \<and> sourcepos n \<noteq> None
                 then Inl (AttributeError ''push'') else Inr [])"
      using sourcepos_attrs_truth [of self n] by (simp add: o)
    have hi: "renderHtmlInline esc self ev n attrs ent st
              = Inr (st\<lparr>buf := buf st @ (if 0 < disable_tags st then reHtmlTag_sub tx else tx),
                         last_out := tx\<rparr>)"
      if "tx = (if dict_get_truthy opts ''safe'' then ''<!-- raw HTML omitted -->'' else literal n)"
      for tx
      using that by (simp add: renderHtmlInline_def o out_state)
    have hb: "renderHtmlBlock esc self ev n attrs ent st
              = Inr (st\<lparr>buf := buf st @ (if 0 < disable_tags st then reHtmlTag_sub tx else tx)
                                @ (if tx = ''\<newline>'' then [] else ''\<newline>''),
                         last_out := ''\<newline>''\<rparr>)"
      if "tx = (if dict_get_truthy opts ''safe'' then ''<!-- raw HTML omitted -->'' else literal n)"
      for tx
      using that by (simp add: renderHtmlBlock_def Let_def o out_state cr_state)
    have lk: "renderLink esc self ev n attrs True st
              = Inr (st\<lparr>buf := buf st @ (if 0 < disable_tags st then reHtmlTag_sub tg else tg),
                         last_out := tg\<rparr>)"
      if "tg = tag ''a''
                 (attrs
                  @ (if dict_get_truthy opts ''safe'' \<and> potentially_unsafe (destination n)
                     then [] else [(''href'', esc (destination n) True)])
                  @ (if title n \<noteq> [] then [(''title'', esc (title n) True)] else []))
                 False"
      for tg
      using that by (simp add: renderLink_def Let_def o out_state)
    have im: "renderImage esc self ev n attrs True st
              = Inr (st\<lparr>buf := buf st @ tx, last_out := tx, disable_tags := 1\<rparr>)"
      if "disable_tags st = 0"
        and "tx = ''<img src=\"''
                  @ (if dict_get_truthy opts ''safe'' \<and> potentially_unsafe (destination n)
                     then [] else esc (destination n) True)
                  @ ''\" alt=\"''"
      for tx
      using that by (simp add: renderImage_def Let_def o out_state)
    show ?thesis
      using i o inv sp hi hb lk im
      by (simp add: Let_def)
  qed
  show ?thesis
  proof (cases "HtmlRenderer_init opts = Inr self")
    case True
    then have "self = \<lparr>softbreak = ''\<newline>'', options = opts\<rparr>"
      by (simp add: HtmlRenderer_init_def)
    then show ?thesis by (rule rest)
  next
    case False
    with i show ?thesis by simp
  qed
qed

theorem init_stores_options_witness:
  "HtmlRenderer_init [''safe'' \<mapsto> PyStr ''no'']
     = Inr \<lparr>softbreak = ''\<newline>'', options = [''safe'' \<mapsto> PyStr ''no'']\<rparr>
   \<and> HtmlRenderer_init [''safe'' \<mapsto> PyBool True]
     = Inr \<lparr>softbreak = ''\<newline>'', options = [''safe'' \<mapsto> PyBool True]\<rparr>
   \<and> dict_get_truthy [''safe'' \<mapsto> PyStr ''no''] ''safe''
     = dict_get_truthy [''safe'' \<mapsto> PyBool True] ''safe''
   \<and> dict_get_truthy [''safe'' \<mapsto> PyStr ''no''] ''sourcepos''
     = dict_get_truthy [''safe'' \<mapsto> PyBool True] ''sourcepos''
   \<and> renderNodes escape_xml \<lparr>softbreak = ''\<newline>'', options = [''safe'' \<mapsto> PyStr ''no'']\<rparr>
        [\<lparr>entering = True,
          node = Node ''HtmlInline'' ''<b>'' [] [] [] 0 [] [] Map.empty None None\<rparr>]
     = renderNodes escape_xml \<lparr>softbreak = ''\<newline>'', options = [''safe'' \<mapsto> PyBool True]\<rparr>
        [\<lparr>entering = True,
          node = Node ''HtmlInline'' ''<b>'' [] [] [] 0 [] [] Map.empty None None\<rparr>]
   \<and> renderHtmlInline escape_xml \<lparr>softbreak = ''\<newline>'', options = [''safe'' \<mapsto> PyStr ''no'']\<rparr>
        \<lparr>entering = True, node = Node ''HtmlInline'' ''<b>'' [] [] [] 0 [] [] Map.empty None None\<rparr>
        (Node ''HtmlInline'' ''<b>'' [] [] [] 0 [] [] Map.empty None None) [] True initial_state
     = Inr \<lparr>buf = ''<!-- raw HTML omitted -->'', last_out = ''<!-- raw HTML omitted -->'',
            disable_tags = 0\<rparr>"
proof -
  have a: "HtmlRenderer_init [''safe'' \<mapsto> PyStr ''no'']
             = Inr \<lparr>softbreak = ''\<newline>'', options = [''safe'' \<mapsto> PyStr ''no'']\<rparr>"
    and b: "HtmlRenderer_init [''safe'' \<mapsto> PyBool True]
             = Inr \<lparr>softbreak = ''\<newline>'', options = [''safe'' \<mapsto> PyBool True]\<rparr>"
    by (simp_all add: HtmlRenderer_init_def)
  have c: "dict_get_truthy [''safe'' \<mapsto> PyStr ''no''] ''safe''
             = dict_get_truthy [''safe'' \<mapsto> PyBool True] ''safe''"
    and d: "dict_get_truthy [''safe'' \<mapsto> PyStr ''no''] ''sourcepos''
             = dict_get_truthy [''safe'' \<mapsto> PyBool True] ''sourcepos''"
    and e: "dict_get_truthy [''safe'' \<mapsto> PyStr ''no''] ''safe''"
    by (simp_all add: dict_get_truthy_def)
  show ?thesis
    using a b c d e
      init_stores_options [where opts = "[''safe'' \<mapsto> PyStr ''no'']"
        and opts' = "[''safe'' \<mapsto> PyBool True]"
        and self = "\<lparr>softbreak = ''\<newline>'', options = [''safe'' \<mapsto> PyStr ''no'']\<rparr>"
        and self' = "\<lparr>softbreak = ''\<newline>'', options = [''safe'' \<mapsto> PyBool True]\<rparr>"
        and esc = escape_xml
        and evs = "[\<lparr>entering = True,
                     node = Node ''HtmlInline'' ''<b>'' [] [] [] 0 [] [] Map.empty None None\<rparr>]"
        and ev = "\<lparr>entering = True,
                    node = Node ''HtmlInline'' ''<b>'' [] [] [] 0 [] [] Map.empty None None\<rparr>"
        and n = "Node ''HtmlInline'' ''<b>'' [] [] [] 0 [] [] Map.empty None None"
        and attrs = "[]" and ent = True and st = initial_state]
    by (simp add: Let_def initial_state_def)
qed

end
